theory Spec2Isabelle
  imports Complex_Main
begin

section \<open>Data model of the ping tool (main.go)\<close>

text \<open>
  \<^verbatim>\<open>time.Duration\<close> is a signed 64-bit count of nanoseconds. Durations are modelled as
  \<open>int\<close>, and every place where the program multiplies or adds durations wraps the
  result with \<open>int64\<close>.
\<close>

definition int64 :: "int \<Rightarrow> int" where
  "int64 x = (x + 2 ^ 63) mod 2 ^ 64 - 2 ^ 63"

definition Second :: int where
  "Second = 1000000000"

definition Millisecond :: int where
  "Millisecond = 1000000"

text \<open>\<^verbatim>\<open>time.Duration(n) * time.Second\<close> for a flag value \<open>n\<close>.\<close>

definition seconds :: "int \<Rightarrow> int" where
  "seconds n = int64 (n * Second)"

text \<open>
  The struct \<^verbatim>\<open>PingResult\<close>. The field \<open>Error\<close> holds Go's \<^verbatim>\<open>error\<close> interface value:
  \<open>None\<close> is \<^verbatim>\<open>nil\<close>, \<open>Some msg\<close> a non-nil error with its message.
\<close>

record PingResult =
  Target :: string
  Success :: bool
  ResponseTime :: int
  StatusCode :: int
  Error :: "string option"

text \<open>
  Everything the process prints is a \<open>line\<close>: one constructor for each
  \<^verbatim>\<open>Println\<close>/\<^verbatim>\<open>Printf\<close> call of the source, carrying the arguments that are formatted into
  it. Durations that are printed after \<^verbatim>\<open>Round(time.Millisecond)\<close> are carried rounded.
\<close>

text \<open>
  The text of a \<^verbatim>\<open>float64\<close> printed with \<^verbatim>\<open>%.1f\<close>: a sign and the number of tenths, or
  \<^verbatim>\<open>NaN\<close>, or an infinity (\<open>True\<close> for \<^verbatim>\<open>+Inf\<close>).
\<close>

datatype loss_text = Decimal1 bool int | TextNaN | TextInf bool

datatype verdict = Excellent | Good | Fair | Poor

datatype line =
    MissingTarget
  | Usage
  | HeaderTitle
  | HeaderTarget string
  | HeaderType string
  | HeaderTime string
  | IcmpNotice
  | Unsupported string
  | ResultStatus int string int int
  | ResultConnected int string int
  | ResultFailed int string "string option"
  | SummaryTitle
  | SummaryCounts int int int loss_text
  | SummaryAverage int
  | SummaryMinMax int int
  | SummaryHealth verdict

text \<open>
  The effects of the process, in the order they happen: the two network calls with the
  address and the timeout they are given, the sleeps, and the lines written to standard
  output and to standard error (where \<^verbatim>\<open>flag.Usage\<close> writes).
\<close>

datatype event =
    ClientGet string int
  | DialTimeout string int
  | Sleep int
  | Stdout line
  | Stderr line

text \<open>
  The world outside the program. A network call is answered from the history of the run
  up to and including the call itself, so the answer may depend on the address, the
  timeout, the attempt and everything before it. The answer is the time that elapsed
  (\<^verbatim>\<open>time.Since(start)\<close>) and either the error or, for HTTP, the status code of the response.
  \<open>ToLower\<close> and \<open>ToUpper\<close> are \<^verbatim>\<open>strings.ToLower\<close> and \<^verbatim>\<open>strings.ToUpper\<close>, \<open>now\<close> is the
  formatted \<^verbatim>\<open>time.Now()\<close> of the header.
\<close>

record environment =
  client_Get :: "event list \<Rightarrow> int \<times> (string + int)"
  net_DialTimeout :: "event list \<Rightarrow> int \<times> string option"
  ToLower :: "string \<Rightarrow> string"
  ToUpper :: "string \<Rightarrow> string"
  now :: string

text \<open>The command-line flags after \<^verbatim>\<open>flag.Parse()\<close>.\<close>

record config =
  cfg_target :: string
  cfg_pingType :: string
  cfg_count :: int
  cfg_timeout :: int
  cfg_interval :: int
  cfg_continuous :: bool
  cfg_test :: string

section \<open>The probe executors\<close>

text \<open>\<^verbatim>\<open>strings.HasPrefix\<close> and \<^verbatim>\<open>strings.Contains(target, ":")\<close> on byte strings.\<close>

definition HasPrefix :: "string \<Rightarrow> string \<Rightarrow> bool" where
  "HasPrefix s p = (take (length p) s = p)"

definition ContainsColon :: "string \<Rightarrow> bool" where
  "ContainsColon s = (CHR '':'' \<in> set s)"

definition newResult :: "string \<Rightarrow> PingResult" where
  "newResult t = \<lparr>Target = t, Success = False, ResponseTime = 0, StatusCode = 0, Error = None\<rparr>"

definition pingHTTP ::
  "environment \<Rightarrow> string \<Rightarrow> string \<Rightarrow> int \<Rightarrow> event list \<Rightarrow> PingResult \<times> event list" where
  "pingHTTP env target protocol timeout tr =
     (let result = newResult target;
          url = (if \<not> HasPrefix target ''http://'' \<and> \<not> HasPrefix target ''https://''
                 then protocol @ ''://'' @ target else target);
          tr1 = tr @ [ClientGet url timeout];
          (elapsed, resp) = client_Get env tr1;
          result = result\<lparr>ResponseTime := elapsed\<rparr>
      in case resp of
           Inl err \<Rightarrow> (result\<lparr>Error := Some err\<rparr>, tr1)
         | Inr status \<Rightarrow> (result\<lparr>StatusCode := status, Success := (status < 500)\<rparr>, tr1))"

definition pingTCP ::
  "environment \<Rightarrow> string \<Rightarrow> int \<Rightarrow> event list \<Rightarrow> PingResult \<times> event list" where
  "pingTCP env target timeout tr =
     (let result = newResult target;
          addr = (if \<not> ContainsColon target then target @ '':80'' else target);
          tr1 = tr @ [DialTimeout addr timeout];
          (elapsed, err) = net_DialTimeout env tr1;
          result = result\<lparr>ResponseTime := elapsed\<rparr>
      in case err of
           Some e \<Rightarrow> (result\<lparr>Error := Some e\<rparr>, tr1)
         | None \<Rightarrow> (result\<lparr>Success := True\<rparr>, tr1))"

section \<open>Durations and floating point as the reporter uses them\<close>

text \<open>Go's integer division truncates towards zero.\<close>

definition go_quot :: "int \<Rightarrow> int \<Rightarrow> int" where
  "go_quot a b = sgn a * sgn b * (\<bar>a\<bar> div \<bar>b\<bar>)"

definition go_rem :: "int \<Rightarrow> int \<Rightarrow> int" where
  "go_rem a b = a - b * go_quot a b"

definition maxDuration :: int where
  "maxDuration = 2 ^ 63 - 1"

definition minDuration :: int where
  "minDuration = - (2 ^ 63)"

text \<open>
  \<^verbatim>\<open>time.Duration.Round\<close> of the standard library (round to a multiple of \<open>m\<close>, halfway
  values away from zero, saturating at the largest and smallest duration), with its helper
  \<^verbatim>\<open>lessThanHalf(x, y) = uint64(x)+uint64(x) < uint64(y)\<close>.
\<close>

definition lessThanHalf :: "int \<Rightarrow> int \<Rightarrow> bool" where
  "lessThanHalf x y = ((x mod 2 ^ 64 + x mod 2 ^ 64) mod 2 ^ 64 < y mod 2 ^ 64)"

definition Round :: "int \<Rightarrow> int \<Rightarrow> int" where
  "Round d m =
     (if m \<le> 0 then d
      else let r = go_rem d m in
        if d < 0 then
          (let r = int64 (- r) in
           if lessThanHalf r m then int64 (d + r)
           else let d1 = int64 (d - m + r) in
             if d1 < d then d1 else minDuration)
        else if lessThanHalf r m then int64 (d - r)
        else let d1 = int64 (d + m - r) in
          if d1 > d then d1 else maxDuration)"

text \<open>
  A \<^verbatim>\<open>float64\<close> value: a finite number (kept as the rational it denotes), an infinity
  (\<open>True\<close> for the positive one) or not-a-number. The reporter only divides by
  \<^verbatim>\<open>float64(len(results))\<close>, which is never negative, so a negative zero never arises
  and zero needs no sign.
\<close>

datatype float64 = Finite rat | Infinity bool | NaN

text \<open>Rounding a rational to the nearest integer, halfway cases to the even neighbour.\<close>

definition round_half_even :: "rat \<Rightarrow> int" where
  "round_half_even x =
     (let f = \<lfloor>x\<rfloor>; d = x - of_int f
      in if d < 1 / 2 then f
         else if 1 / 2 < d then f + 1
         else if even f then f else f + 1)"

text \<open>The number of binary digits of a positive integer.\<close>

function bit_len :: "int \<Rightarrow> int" where
  "bit_len n = (if n \<le> 0 then 0 else 1 + bit_len (n div 2))"
  by pat_completeness auto
termination
  by (relation "measure nat") auto

declare bit_len.simps [simp del]

text \<open>
  The binary exponent of a positive rational: the \<open>e\<close> with \<open>2 ^ e \<le> x < 2 ^ (e + 1)\<close>,
  found from the bit lengths of numerator and denominator.
\<close>

definition binade :: "rat \<Rightarrow> int" where
  "binade x =
     (let (p, q) = quotient_of x;
          d = bit_len p - bit_len q
      in if 2 powi d \<le> x then d else d - 1)"

text \<open>
  IEEE 754 binary64 rounding of an exact result (round to nearest, ties to even): the
  value is rounded to a multiple of the unit in the last place of its binade, which leaves
  53 significant bits. The quantities the reporter computes (integers below \<open>2 ^ 63\<close> in
  magnitude, a quotient of two of them, and that quotient times 100) are zero or lie
  between \<open>2 ^ -63\<close> and \<open>2 ^ 70\<close>, inside the normal range of the format, where this
  is the whole of the rounding rule.
\<close>

definition f64 :: "rat \<Rightarrow> rat" where
  "f64 x =
     (if x = 0 then 0
      else let u = 2 powi (binade \<bar>x\<bar> - 52)
           in sgn x * (of_int (round_half_even (\<bar>x\<bar> / u)) * u))"

definition float64_of_int :: "int \<Rightarrow> float64" where
  "float64_of_int i = Finite (f64 (of_int i))"

fun f64_div :: "float64 \<Rightarrow> float64 \<Rightarrow> float64" where
  "f64_div (Finite a) (Finite b) =
     (if b = 0 then (if a = 0 then NaN else Infinity (0 < a)) else Finite (f64 (a / b)))"
| "f64_div (Finite a) (Infinity s) = Finite 0"
| "f64_div (Infinity s) (Finite b) = Infinity (s = (0 \<le> b))"
| "f64_div _ _ = NaN"

fun f64_mul :: "float64 \<Rightarrow> float64 \<Rightarrow> float64" where
  "f64_mul (Finite a) (Finite b) = Finite (f64 (a * b))"
| "f64_mul (Finite a) (Infinity s) = (if a = 0 then NaN else Infinity (s = (0 < a)))"
| "f64_mul (Infinity s) (Finite b) = (if b = 0 then NaN else Infinity (s = (0 < b)))"
| "f64_mul (Infinity s) (Infinity t) = Infinity (s = t)"
| "f64_mul _ _ = NaN"

text \<open>Comparison of a \<^verbatim>\<open>float64\<close> with a finite constant: every comparison with NaN is false.\<close>

fun f64_eq :: "float64 \<Rightarrow> rat \<Rightarrow> bool" where
  "f64_eq (Finite a) c = (a = c)"
| "f64_eq _ c = False"

fun f64_ge :: "float64 \<Rightarrow> rat \<Rightarrow> bool" where
  "f64_ge (Finite a) c = (c \<le> a)"
| "f64_ge (Infinity s) c = s"
| "f64_ge NaN c = False"

text \<open>
  \<^verbatim>\<open>%.1f\<close>: the exact value of the \<^verbatim>\<open>float64\<close> rounded to one decimal, halfway cases to
  even.
\<close>

fun format_1f :: "float64 \<Rightarrow> loss_text" where
  "format_1f (Finite a) = Decimal1 (a < 0) (round_half_even (\<bar>a\<bar> * 10))"
| "format_1f (Infinity s) = TextInf s"
| "format_1f NaN = TextNaN"

section \<open>The reporter\<close>

definition printHeader :: "environment \<Rightarrow> string \<Rightarrow> string \<Rightarrow> line list" where
  "printHeader env target pingType =
     [HeaderTitle, HeaderTarget target, HeaderType (ToUpper env pingType), HeaderTime (now env)]"

definition printResult :: "PingResult \<Rightarrow> int \<Rightarrow> line" where
  "printResult result seq =
     (if Success result then
        (if StatusCode result > 0
         then ResultStatus seq (Target result) (StatusCode result)
                (Round (ResponseTime result) Millisecond)
         else ResultConnected seq (Target result) (Round (ResponseTime result) Millisecond))
      else ResultFailed seq (Target result) (Error result))"

text \<open>
  The loop of \<^verbatim>\<open>printSummary\<close> that finds the smallest and largest response time; its state
  is \<open>(first, minTime, maxTime)\<close>.
\<close>

fun minmax_loop :: "PingResult list \<Rightarrow> bool \<times> int \<times> int \<Rightarrow> bool \<times> int \<times> int" where
  "minmax_loop [] s = s"
| "minmax_loop (r # rs) (first, minTime, maxTime) =
     minmax_loop rs
       (if Success r then
          (if first then (False, ResponseTime r, ResponseTime r)
           else (False,
                 (if ResponseTime r < minTime then ResponseTime r else minTime),
                 (if ResponseTime r > maxTime then ResponseTime r else maxTime)))
        else (first, minTime, maxTime))"

definition percent :: "int \<Rightarrow> int \<Rightarrow> float64" where
  "percent a n = f64_mul (f64_div (float64_of_int a) (float64_of_int n)) (Finite 100)"

definition health :: "int \<Rightarrow> int \<Rightarrow> verdict" where
  "health successCount n =
     (let successRate = percent successCount n
      in if f64_eq successRate 100 then Excellent
         else if f64_ge successRate 90 then Good
         else if f64_ge successRate 70 then Fair
         else Poor)"

definition printSummary :: "PingResult list \<Rightarrow> int \<Rightarrow> int \<Rightarrow> line list" where
  "printSummary results successCount totalTime =
     [SummaryTitle,
      SummaryCounts (int (length results)) successCount (int (length results) - successCount)
        (format_1f (percent (int (length results) - successCount) (int (length results))))]
     @ (if successCount > 0 then
          (let avgTime = go_quot totalTime successCount;
               (first, minTime, maxTime) = minmax_loop results (True, 0, 0)
           in [SummaryAverage (Round avgTime Millisecond),
               SummaryMinMax (Round minTime Millisecond) (Round maxTime Millisecond)])
        else [])
     @ [SummaryHealth (health successCount (int (length results)))]"

section \<open>The driver loop and \<^verbatim>\<open>main\<close>\<close>

text \<open>
  The variables of \<^verbatim>\<open>main\<close> that the loop changes, and the effects so far. The counters
  \<open>iteration\<close> and \<open>successCount\<close> are Go \<^verbatim>\<open>int\<close>s that grow by one per attempt; they are
  modelled as unbounded integers.
\<close>

record run_state =
  results :: "PingResult list"
  successCount :: int
  totalTime :: int
  iteration :: int
  trace :: "event list"

text \<open>
  The \<^verbatim>\<open>switch\<close> on the lowercased protocol name. \<open>None\<close> is the \<^verbatim>\<open>default\<close> branch, which
  performs no probe.
\<close>

definition probe :: "environment \<Rightarrow> config \<Rightarrow> event list \<Rightarrow> (PingResult \<times> event list) option" where
  "probe env cfg tr =
     (let ty = ToLower env (cfg_pingType cfg) in
      if ty = ''http'' \<or> ty = ''https'' then
        Some (pingHTTP env (cfg_target cfg) (cfg_pingType cfg) (seconds (cfg_timeout cfg)) tr)
      else if ty = ''tcp'' then
        Some (pingTCP env (cfg_target cfg) (seconds (cfg_timeout cfg)) tr)
      else if ty = ''icmp'' then
        Some (pingTCP env (cfg_target cfg) (seconds (cfg_timeout cfg)) (tr @ [Stdout IcmpNotice]))
      else None)"

text \<open>How the loop is left: by \<^verbatim>\<open>break\<close>, or by \<^verbatim>\<open>os.Exit\<close> with a status.\<close>

datatype loop_end = Break run_state | OsExit int run_state

text \<open>
  One pass of the body after a probe returned \<open>result\<close> with the effects \<open>tr\<close>: append,
  print, count, increment, and sleep unless this was the last attempt.
\<close>

definition record_attempt :: "config \<Rightarrow> int \<Rightarrow> run_state \<Rightarrow> PingResult \<Rightarrow> event list \<Rightarrow> run_state" where
  "record_attempt cfg pingCount st result tr =
     (let st1 = st\<lparr>results := results st @ [result],
                   trace := tr @ [Stdout (printResult result (iteration st + 1))]\<rparr>;
          st2 = (if Success result
                 then st1\<lparr>successCount := successCount st1 + 1,
                          totalTime := int64 (totalTime st1 + ResponseTime result)\<rparr>
                 else st1);
          st3 = st2\<lparr>iteration := iteration st2 + 1\<rparr>
      in if pingCount < 0 \<or> iteration st3 < pingCount
         then st3\<lparr>trace := trace st3 @ [Sleep (seconds (cfg_interval cfg))]\<rparr>
         else st3)"

text \<open>
  The \<^verbatim>\<open>for\<close> loop. It has no bound of its own, so the model counts the passes it may still
  make: \<open>None\<close> means that the loop is still running after \<open>fuel\<close> passes.
\<close>

fun driver_loop :: "environment \<Rightarrow> config \<Rightarrow> int \<Rightarrow> nat \<Rightarrow> run_state \<Rightarrow> loop_end option" where
  "driver_loop env cfg pingCount 0 st = None"
| "driver_loop env cfg pingCount (Suc fuel) st =
     (if pingCount > 0 \<and> iteration st \<ge> pingCount then Some (Break st)
      else case probe env cfg (trace st) of
             None \<Rightarrow>
               Some (OsExit 1 (st\<lparr>trace := trace st @ [Stdout (Unsupported (cfg_pingType cfg))]\<rparr>))
           | Some (result, tr) \<Rightarrow>
               driver_loop env cfg pingCount fuel (record_attempt cfg pingCount st result tr))"

definition initial_state :: "event list \<Rightarrow> run_state" where
  "initial_state tr = \<lparr>results = [], successCount = 0, totalTime = 0, iteration = 0, trace = tr\<rparr>"

text \<open>
  \<^verbatim>\<open>main\<close>: the exit status of the process and the final state, or \<open>None\<close> while the loop is
  still running.
\<close>

definition main :: "environment \<Rightarrow> config \<Rightarrow> nat \<Rightarrow> (int \<times> run_state) option" where
  "main env cfg fuel =
     (if cfg_target cfg = []
      then Some (1, initial_state [Stdout MissingTarget, Stderr Usage])
      else
        let st = initial_state (map Stdout (printHeader env (cfg_target cfg) (cfg_pingType cfg)));
            pingCount = (if cfg_continuous cfg then - 1 else cfg_count cfg)
        in case driver_loop env cfg pingCount fuel st of
             None \<Rightarrow> None
           | Some (OsExit code st') \<Rightarrow> Some (code, st')
           | Some (Break st') \<Rightarrow>
               Some (0, st'\<lparr>trace := trace st' @
                        map Stdout (printSummary (results st') (successCount st') (totalTime st'))\<rparr>))"

text \<open>
  A process that has not ended can be observed as well. \<open>driver_passes\<close> is the same loop
  with the same budget of passes, but when the budget is used up it hands out the state
  reached so far, whose trace holds every effect up to that moment, instead of forgetting
  it.
\<close>

datatype progress = Running run_state | Ended loop_end

fun driver_passes :: "environment \<Rightarrow> config \<Rightarrow> int \<Rightarrow> nat \<Rightarrow> run_state \<Rightarrow> progress" where
  "driver_passes env cfg pingCount 0 st = Running st"
| "driver_passes env cfg pingCount (Suc fuel) st =
     (if pingCount > 0 \<and> iteration st \<ge> pingCount then Ended (Break st)
      else case probe env cfg (trace st) of
             None \<Rightarrow>
               Ended (OsExit 1 (st\<lparr>trace := trace st @ [Stdout (Unsupported (cfg_pingType cfg))]\<rparr>))
           | Some (result, tr) \<Rightarrow>
               driver_passes env cfg pingCount fuel (record_attempt cfg pingCount st result tr))"

text \<open>
  \<^verbatim>\<open>main\<close> observed after at most \<open>fuel\<close> passes of its loop: the exit status if the process
  has ended by then (\<open>None\<close> while it is running), and the state with everything recorded
  and everything done up to then.
\<close>

definition main_passes :: "environment \<Rightarrow> config \<Rightarrow> nat \<Rightarrow> int option \<times> run_state" where
  "main_passes env cfg fuel =
     (if cfg_target cfg = []
      then (Some 1, initial_state [Stdout MissingTarget, Stderr Usage])
      else
        let st = initial_state (map Stdout (printHeader env (cfg_target cfg) (cfg_pingType cfg)));
            pingCount = (if cfg_continuous cfg then - 1 else cfg_count cfg)
        in case driver_passes env cfg pingCount fuel st of
             Running st' \<Rightarrow> (None, st')
           | Ended (OsExit code st') \<Rightarrow> (Some code, st')
           | Ended (Break st') \<Rightarrow>
               (Some 0, st'\<lparr>trace := trace st' @
                          map Stdout (printSummary (results st') (successCount st') (totalTime st'))\<rparr>))"

section \<open>Observing a run\<close>

text \<open>The protocol names for which the \<^verbatim>\<open>switch\<close> of the loop has a probing branch.\<close>

definition supported :: "environment \<Rightarrow> config \<Rightarrow> bool" where
  "supported env cfg \<longleftrightarrow>
     ToLower env (cfg_pingType cfg) \<in> {''http'', ''https'', ''tcp'', ''icmp''}"

text \<open>
  The skeleton of a trace keeps what the driver loop is about and forgets the rest: a
  network call is an \<open>Attempt\<close>, a per-attempt line is a \<open>Report\<close> with the sequence
  number printed in it, a sleep is a \<open>Pause\<close> with its duration. Header, notice and
  summary lines leave no mark.
\<close>

datatype mark = Attempt | Report int | Pause int

fun mark_of :: "event \<Rightarrow> mark list" where
  "mark_of (ClientGet url t) = [Attempt]"
| "mark_of (DialTimeout addr t) = [Attempt]"
| "mark_of (Sleep d) = [Pause d]"
| "mark_of (Stdout (ResultStatus seq tg sc rt)) = [Report seq]"
| "mark_of (Stdout (ResultConnected seq tg rt)) = [Report seq]"
| "mark_of (Stdout (ResultFailed seq tg err)) = [Report seq]"
| "mark_of (Stdout other) = []"
| "mark_of (Stderr other) = []"

definition skeleton :: "event list \<Rightarrow> mark list" where
  "skeleton tr = concat (map mark_of tr)"

text \<open>
  The schedule that the specification gives for bounded mode, written from its words and
  not from the code: \<open>n\<close> attempts, numbered from 1 in sequence, each one reported, a
  sleep of \<open>d\<close> between two consecutive attempts and none after the last. \<open>rounds d i k\<close>
  are the \<open>k\<close> attempts that follow attempt number \<open>i\<close>.
\<close>

fun rounds :: "int \<Rightarrow> int \<Rightarrow> nat \<Rightarrow> mark list" where
  "rounds d i 0 = []"
| "rounds d i (Suc k) =
     [Attempt, Report (i + 1)] @ (if k = 0 then [] else [Pause d]) @ rounds d (i + 1) k"

definition bounded_schedule :: "int \<Rightarrow> int \<Rightarrow> mark list" where
  "bounded_schedule n d = rounds d 0 (nat n)"

text \<open>The per-attempt lines of a trace, in the order they were printed.\<close>

fun report_of :: "event \<Rightarrow> line list" where
  "report_of (Stdout (ResultStatus seq tg sc rt)) = [ResultStatus seq tg sc rt]"
| "report_of (Stdout (ResultConnected seq tg rt)) = [ResultConnected seq tg rt]"
| "report_of (Stdout (ResultFailed seq tg err)) = [ResultFailed seq tg err]"
| "report_of other = []"

definition reports :: "event list \<Rightarrow> line list" where
  "reports tr = concat (map report_of tr)"

text \<open>The lines that report the results \<open>rs\<close> in their order, numbered from 1.\<close>

definition numbered :: "PingResult list \<Rightarrow> line list" where
  "numbered rs = map (\<lambda>(r, i). printResult r i) (zip rs [1..int (length rs)])"

fun state_of :: "loop_end \<Rightarrow> run_state" where
  "state_of (Break st) = st"
| "state_of (OsExit code st) = st"

text \<open>
  What the counters of the loop mean: \<open>iteration\<close> is the number of results recorded,
  \<open>successCount\<close> the number of successful ones, \<open>totalTime\<close> the 64-bit sum of their
  response times, and the report lines printed so far are those of the results recorded
  so far.
\<close>

definition consistent :: "run_state \<Rightarrow> bool" where
  "consistent st \<longleftrightarrow>
     iteration st = int (length (results st))
     \<and> successCount st = int (length (filter Success (results st)))
     \<and> totalTime st = int64 (sum_list (map ResponseTime (filter Success (results st))))
     \<and> reports (trace st) = numbered (results st)"

text \<open>The events of the summary block that \<^verbatim>\<open>main\<close> prints for a final state.\<close>

definition summary_events :: "run_state \<Rightarrow> event list" where
  "summary_events st =
     map Stdout (printSummary (results st) (successCount st) (totalTime st))"

section \<open>Concrete environments and configurations used as test inputs\<close>

text \<open>
  Case mapping for the test inputs: the letters A to Z and a to z are mapped, every other
  character is kept. On strings of ASCII characters, which is what all the inputs below
  are, this is what \<^verbatim>\<open>strings.ToLower\<close> and \<^verbatim>\<open>strings.ToUpper\<close> compute; the general
  theorems hold for every \<open>ToLower\<close> and \<open>ToUpper\<close>.
\<close>

definition translate :: "string \<Rightarrow> string \<Rightarrow> string \<Rightarrow> string" where
  "translate from to s = map (\<lambda>c. case map_of (zip from to) c of Some d \<Rightarrow> d | None \<Rightarrow> c) s"

definition ascii_lower :: "string \<Rightarrow> string" where
  "ascii_lower = translate ''ABCDEFGHIJKLMNOPQRSTUVWXYZ'' ''abcdefghijklmnopqrstuvwxyz''"

definition ascii_upper :: "string \<Rightarrow> string" where
  "ascii_upper = translate ''abcdefghijklmnopqrstuvwxyz'' ''ABCDEFGHIJKLMNOPQRSTUVWXYZ''"

text \<open>A server that answers every request after 15 ms, with status 404 resp. a connection.\<close>

definition env_up :: environment where
  "env_up = \<lparr>client_Get = (\<lambda>tr. (15000000, Inr 404)),
             net_DialTimeout = (\<lambda>tr. (15000000, None)),
             ToLower = ascii_lower, ToUpper = ascii_upper,
             now = ''2026-01-01 00:00:00''\<rparr>"

text \<open>A host that refuses every connection after 2 ms.\<close>

definition env_down :: environment where
  "env_down = \<lparr>client_Get = (\<lambda>tr. (2000000, Inl ''connection refused'')),
               net_DialTimeout = (\<lambda>tr. (2000000, Some ''connection refused'')),
               ToLower = ascii_lower, ToUpper = ascii_upper,
               now = ''2026-01-01 00:00:00''\<rparr>"

text \<open>A server that is reachable but answers every request with status 503.\<close>

definition env_unavailable :: environment where
  "env_unavailable = \<lparr>client_Get = (\<lambda>tr. (40000000, Inr 503)),
                      net_DialTimeout = (\<lambda>tr. (1000000, None)),
                      ToLower = ascii_lower, ToUpper = ascii_upper,
                      now = ''2026-01-01 00:00:00''\<rparr>"

text \<open>
  Command lines: two attempts over HTTP; protocols that the tool does not know; a count of
  0; a negative count; continuous mode.
\<close>

definition cfg_http :: config where
  "cfg_http = \<lparr>cfg_target = ''example.com'', cfg_pingType = ''HTTP'', cfg_count = 2,
               cfg_timeout = 5, cfg_interval = 1, cfg_continuous = False, cfg_test = ''''\<rparr>"

definition cfg_ftp :: config where
  "cfg_ftp = \<lparr>cfg_target = ''example.com'', cfg_pingType = ''ftp'', cfg_count = 4,
              cfg_timeout = 5, cfg_interval = 1, cfg_continuous = False, cfg_test = ''''\<rparr>"

definition cfg_gopher :: config where
  "cfg_gopher = \<lparr>cfg_target = ''10.0.0.1:70'', cfg_pingType = ''Gopher'', cfg_count = 1,
                 cfg_timeout = 2, cfg_interval = 3, cfg_continuous = False, cfg_test = ''''\<rparr>"

definition cfg_forever :: config where
  "cfg_forever = \<lparr>cfg_target = ''example.com'', cfg_pingType = ''tcp'', cfg_count = 0,
                  cfg_timeout = 5, cfg_interval = 1, cfg_continuous = False, cfg_test = ''''\<rparr>"

definition cfg_negative :: config where
  "cfg_negative = \<lparr>cfg_target = ''example.com'', cfg_pingType = ''tcp'', cfg_count = - 3,
                   cfg_timeout = 5, cfg_interval = 1, cfg_continuous = False, cfg_test = ''''\<rparr>"

definition cfg_continuous_tcp :: config where
  "cfg_continuous_tcp = \<lparr>cfg_target = ''example.com'', cfg_pingType = ''tcp'', cfg_count = 4,
                   cfg_timeout = 5, cfg_interval = 1, cfg_continuous = True, cfg_test = ''''\<rparr>"

section \<open>Properties of the probe executors\<close>

lemma pingHTTP_trace:
  "snd (pingHTTP env target protocol timeout tr) =
     tr @ [ClientGet (if \<not> HasPrefix target ''http://'' \<and> \<not> HasPrefix target ''https://''
                      then protocol @ ''://'' @ target else target) timeout]"
  by (simp add: pingHTTP_def Let_def split: prod.split sum.split)

lemma pingTCP_trace:
  "snd (pingTCP env target timeout tr) =
     tr @ [DialTimeout (if \<not> ContainsColon target then target @ '':80'' else target) timeout]"
  by (simp add: pingTCP_def Let_def split: prod.split option.split)

lemma pingHTTP_Success_Error:
  "Success (fst (pingHTTP env target protocol timeout tr)) \<Longrightarrow>
   Error (fst (pingHTTP env target protocol timeout tr)) = None"
  by (auto simp: pingHTTP_def newResult_def Let_def split: prod.splits sum.splits if_splits)

lemma pingTCP_Success_Error:
  "Success (fst (pingTCP env target timeout tr)) \<Longrightarrow>
   Error (fst (pingTCP env target timeout tr)) = None"
  by (auto simp: pingTCP_def newResult_def Let_def split: prod.splits option.splits if_splits)

text \<open>
  Claim C1. An HTTP(S) probe whose request is answered with a response (the reply to the
  request that the probe issued is a status code, not a transport error) returns a result
  whose \<open>Success\<close> field is true exactly when the status code is below 500; the status
  code is stored and no error is set. In particular status 404 is a success and status
  503 a failure.
\<close>

theorem pingHTTP_success_iff_status_below_500:
  assumes "snd (client_Get env (snd (pingHTTP env target protocol timeout tr))) = Inr status"
  shows "(Success (fst (pingHTTP env target protocol timeout tr)) \<longleftrightarrow> status < 500)
       \<and> StatusCode (fst (pingHTTP env target protocol timeout tr)) = status
       \<and> Error (fst (pingHTTP env target protocol timeout tr)) = None
       \<and> (status = 404 \<longrightarrow> Success (fst (pingHTTP env target protocol timeout tr)))
       \<and> (status = 503 \<longrightarrow> \<not> Success (fst (pingHTTP env target protocol timeout tr)))"
proof -
  let ?url = "if \<not> HasPrefix target ''http://'' \<and> \<not> HasPrefix target ''https://''
              then protocol @ ''://'' @ target else target"
  from assms have "snd (client_Get env (tr @ [ClientGet ?url timeout])) = Inr status"
    by (simp only: pingHTTP_trace)
  then obtain elapsed where
    "client_Get env (tr @ [ClientGet ?url timeout]) = (elapsed, Inr status)"
    by (cases "client_Get env (tr @ [ClientGet ?url timeout])") simp
  then have "fst (pingHTTP env target protocol timeout tr) =
     \<lparr>Target = target, Success = (status < 500), ResponseTime = elapsed,
      StatusCode = status, Error = None\<rparr>"
    by (simp add: pingHTTP_def newResult_def Let_def)
  then show ?thesis by simp
qed

theorem pingHTTP_success_iff_status_below_500_witness:
  "Success (fst (pingHTTP env_up ''example.com/missing'' ''https'' (seconds 5) []))
   \<and> StatusCode (fst (pingHTTP env_up ''example.com/missing'' ''https'' (seconds 5) [])) = 404
   \<and> \<not> Success (fst (pingHTTP env_unavailable ''example.com'' ''http'' (seconds 5) []))
   \<and> StatusCode (fst (pingHTTP env_unavailable ''example.com'' ''http'' (seconds 5) [])) = 503"
proof -
  have up: "snd (client_Get env_up
      (snd (pingHTTP env_up ''example.com/missing'' ''https'' (seconds 5) []))) = Inr 404"
    by (simp add: env_up_def)
  have un: "snd (client_Get env_unavailable
      (snd (pingHTTP env_unavailable ''example.com'' ''http'' (seconds 5) []))) = Inr 503"
    by (simp add: env_unavailable_def)
  show ?thesis
    using pingHTTP_success_iff_status_below_500 [OF up]
      pingHTTP_success_iff_status_below_500 [OF un]
    by simp
qed

text \<open>
  Claim C7. A TCP probe performs exactly one dial. When the target contains no colon the
  address dialed is the target followed by \<open>:80\<close>; when it contains a colon the target
  is dialed as it is.
\<close>

theorem pingTCP_dials_default_port_80:
  "(CHR '':'' \<notin> set target \<longrightarrow>
      snd (pingTCP env target timeout tr) = tr @ [DialTimeout (target @ '':80'') timeout])
   \<and> (CHR '':'' \<in> set target \<longrightarrow>
      snd (pingTCP env target timeout tr) = tr @ [DialTimeout target timeout])"
  by (simp add: pingTCP_trace ContainsColon_def)

theorem pingTCP_dials_default_port_80_witness:
  "snd (pingTCP env_up ''example.com'' (seconds 5) []) =
     [DialTimeout ''example.com:80'' 5000000000]
   \<and> snd (pingTCP env_up ''example.com:8443'' (seconds 5) []) =
     [DialTimeout ''example.com:8443'' 5000000000]"
  using pingTCP_dials_default_port_80 [of "''example.com''" env_up "seconds 5" "[]"]
    pingTCP_dials_default_port_80 [of "''example.com:8443''" env_up "seconds 5" "[]"]
  by (simp add: seconds_def int64_def Second_def)

text \<open>
  Claim C8. In every result returned by the HTTP executor and in every result returned by
  the TCP executor, \<open>Success\<close> implies that the error field is \<^verbatim>\<open>nil\<close>; equivalently a
  result that carries an error is not a success.
\<close>

theorem probe_success_implies_no_error:
  "(Success (fst (pingHTTP env target protocol timeout tr)) \<longrightarrow>
      Error (fst (pingHTTP env target protocol timeout tr)) = None)
   \<and> (Success (fst (pingTCP env target timeout tr)) \<longrightarrow>
      Error (fst (pingTCP env target timeout tr)) = None)
   \<and> (Error (fst (pingHTTP env target protocol timeout tr)) \<noteq> None \<longrightarrow>
      \<not> Success (fst (pingHTTP env target protocol timeout tr)))
   \<and> (Error (fst (pingTCP env target timeout tr)) \<noteq> None \<longrightarrow>
      \<not> Success (fst (pingTCP env target timeout tr)))"
  using pingHTTP_Success_Error [of env target protocol timeout tr]
    pingTCP_Success_Error [of env target timeout tr]
  by auto

theorem probe_success_implies_no_error_witness:
  "Success (fst (pingHTTP env_up ''example.com'' ''http'' (seconds 5) []))
   \<and> Error (fst (pingHTTP env_up ''example.com'' ''http'' (seconds 5) [])) = None
   \<and> Success (fst (pingTCP env_up ''example.com'' (seconds 5) []))
   \<and> Error (fst (pingTCP env_up ''example.com'' (seconds 5) [])) = None
   \<and> Error (fst (pingHTTP env_down ''example.com'' ''http'' (seconds 5) [])) \<noteq> None
   \<and> \<not> Success (fst (pingHTTP env_down ''example.com'' ''http'' (seconds 5) []))
   \<and> Error (fst (pingTCP env_down ''example.com'' (seconds 5) [])) \<noteq> None
   \<and> \<not> Success (fst (pingTCP env_down ''example.com'' (seconds 5) []))"
proof -
  have 1: "Success (fst (pingHTTP env_up ''example.com'' ''http'' (seconds 5) []))"
    by (simp add: pingHTTP_def env_up_def newResult_def Let_def)
  have 2: "Success (fst (pingTCP env_up ''example.com'' (seconds 5) []))"
    by (simp add: pingTCP_def env_up_def newResult_def Let_def)
  have 3: "Error (fst (pingHTTP env_down ''example.com'' ''http'' (seconds 5) [])) \<noteq> None"
    by (simp add: pingHTTP_def env_down_def newResult_def Let_def)
  have 4: "Error (fst (pingTCP env_down ''example.com'' (seconds 5) [])) \<noteq> None"
    by (simp add: pingTCP_def env_down_def newResult_def Let_def)
  show ?thesis
    using 1 2 3 4
      probe_success_implies_no_error [of env_up "''example.com''" "''http''" "seconds 5" "[]"]
      probe_success_implies_no_error [of env_down "''example.com''" "''http''" "seconds 5" "[]"]
    by auto
qed

section \<open>The driver loop: what its counters mean, and when it ends\<close>

lemma skeleton_append [simp]: "skeleton (xs @ ys) = skeleton xs @ skeleton ys"
  by (simp add: skeleton_def)

lemma reports_append [simp]: "reports (xs @ ys) = reports xs @ reports ys"
  by (simp add: reports_def)

lemma skeleton_Cons [simp]: "skeleton (e # tr) = mark_of e @ skeleton tr"
  by (simp add: skeleton_def)

lemma skeleton_Nil [simp]: "skeleton [] = []"
  by (simp add: skeleton_def)

lemma reports_Cons [simp]: "reports (e # tr) = report_of e @ reports tr"
  by (simp add: reports_def)

lemma reports_Nil [simp]: "reports [] = []"
  by (simp add: reports_def)

lemma mark_of_printResult [simp]: "mark_of (Stdout (printResult r i)) = [Report i]"
  by (simp add: printResult_def)

lemma report_of_printResult [simp]: "report_of (Stdout (printResult r i)) = [printResult r i]"
  by (simp add: printResult_def)

lemma probe_None_iff: "probe env cfg tr = None \<longleftrightarrow> \<not> supported env cfg"
  by (auto simp: probe_def supported_def Let_def)

lemma pingHTTP_trace_ex: "\<exists>r u. pingHTTP env t p d tr = (r, tr @ [ClientGet u d])"
  by (cases "pingHTTP env t p d tr") (use pingHTTP_trace [of env t p d tr] in auto)

lemma pingTCP_trace_ex: "\<exists>r a. pingTCP env t d tr = (r, tr @ [DialTimeout a d])"
  by (cases "pingTCP env t d tr") (use pingTCP_trace [of env t d tr] in auto)

lemma probe_Some:
  assumes "probe env cfg tr = Some (r, tr')"
  shows "\<exists>ev. tr' = tr @ ev \<and> skeleton ev = [Attempt] \<and> reports ev = []"
proof -
  let ?ty = "ToLower env (cfg_pingType cfg)"
  let ?d = "seconds (cfg_timeout cfg)"
  consider (http) "?ty = ''http'' \<or> ?ty = ''https''"
    | (tcp) "?ty = ''tcp''" | (icmp) "?ty = ''icmp''"
    | (other) "\<not> supported env cfg"
    by (auto simp: supported_def)
  then show ?thesis
  proof cases
    case http
    with assms have "pingHTTP env (cfg_target cfg) (cfg_pingType cfg) ?d tr = (r, tr')"
      by (simp add: probe_def Let_def)
    with pingHTTP_trace_ex [of env "cfg_target cfg" "cfg_pingType cfg" ?d tr]
    show ?thesis by auto
  next
    case tcp
    with assms have "pingTCP env (cfg_target cfg) ?d tr = (r, tr')"
      by (simp add: probe_def Let_def)
    with pingTCP_trace_ex [of env "cfg_target cfg" ?d tr]
    show ?thesis by auto
  next
    case icmp
    with assms have "pingTCP env (cfg_target cfg) ?d (tr @ [Stdout IcmpNotice]) = (r, tr')"
      by (simp add: probe_def Let_def)
    with pingTCP_trace_ex [of env "cfg_target cfg" ?d "tr @ [Stdout IcmpNotice]"]
    show ?thesis by auto
  next
    case other
    with assms probe_None_iff [of env cfg tr] show ?thesis by simp
  qed
qed

lemma int64_add_left: "int64 (int64 a + b) = int64 (a + b)"
proof -
  have e: "int64 a + b + 2 ^ 63 = (a + 2 ^ 63) mod 2 ^ 64 + b"
    by (simp add: int64_def)
  have "(int64 a + b + 2 ^ 63) mod 2 ^ 64 = ((a + 2 ^ 63) mod 2 ^ 64 + b) mod 2 ^ 64"
    by (simp only: e)
  also have "\<dots> = (a + 2 ^ 63 + b) mod 2 ^ 64"
    by (rule mod_add_left_eq)
  also have "a + 2 ^ 63 + b = a + b + 2 ^ 63"
    by simp
  finally show ?thesis
    by (simp add: int64_def)
qed

lemma int64_id: "- (2 ^ 63) \<le> x \<Longrightarrow> x < 2 ^ 63 \<Longrightarrow> int64 x = x"
  by (simp add: int64_def)

lemma numbered_snoc:
  "numbered (rs @ [r]) = numbered rs @ [printResult r (int (length rs) + 1)]"
proof -
  have "[1..int (length rs) + 1] = [1..int (length rs)] @ [int (length rs) + 1]"
    by (simp add: upto_rec2)
  then show ?thesis
    by (simp add: numbered_def add.commute)
qed

lemma record_attempt_simps:
  "iteration (record_attempt cfg pc st r tr) = iteration st + 1"
  "results (record_attempt cfg pc st r tr) = results st @ [r]"
  "successCount (record_attempt cfg pc st r tr) = successCount st + (if Success r then 1 else 0)"
  "totalTime (record_attempt cfg pc st r tr) =
     (if Success r then int64 (totalTime st + ResponseTime r) else totalTime st)"
  "trace (record_attempt cfg pc st r tr) =
     tr @ [Stdout (printResult r (iteration st + 1))]
        @ (if pc < 0 \<or> iteration st + 1 < pc then [Sleep (seconds (cfg_interval cfg))] else [])"
  by (simp_all add: record_attempt_def Let_def)

lemma consistent_initial: "reports tr = [] \<Longrightarrow> consistent (initial_state tr)"
  by (simp add: consistent_def initial_state_def numbered_def int64_def)

lemma consistent_record_attempt:
  assumes "consistent st" and "probe env cfg (trace st) = Some (r, tr)"
  shows "consistent (record_attempt cfg pc st r tr)"
proof -
  from probe_Some [OF assms(2)] obtain ev where
    ev: "tr = trace st @ ev" "reports ev = []" by blast
  from assms(1) ev show ?thesis
    by (simp add: consistent_def record_attempt_simps numbered_snoc int64_add_left)
qed

lemma driver_loop_consistent:
  "consistent st \<Longrightarrow> driver_loop env cfg pc fuel st = Some e \<Longrightarrow> consistent (state_of e)"
proof (induction fuel arbitrary: st)
  case 0
  then show ?case by simp
next
  case (Suc fuel)
  show ?case
  proof (cases "pc > 0 \<and> iteration st \<ge> pc")
    case True
    with Suc.prems show ?thesis by auto
  next
    case False
    show ?thesis
    proof (cases "probe env cfg (trace st)")
      case None
      with False Suc.prems have "e = OsExit 1 (st\<lparr>trace := trace st @ [Stdout (Unsupported (cfg_pingType cfg))]\<rparr>)"
        by auto
      with Suc.prems(1) show ?thesis
        by (simp add: consistent_def)
    next
      case (Some a)
      obtain r tr where a: "a = (r, tr)" by (cases a)
      with Some False Suc.prems
      have "driver_loop env cfg pc fuel (record_attempt cfg pc st r tr) = Some e"
        by auto
      moreover have "consistent (record_attempt cfg pc st r tr)"
        using consistent_record_attempt Suc.prems(1) Some a by blast
      ultimately show ?thesis by (rule Suc.IH [rotated])
    qed
  qed
qed

lemma driver_loop_Break_positive:
  "driver_loop env cfg pc fuel st = Some (Break st') \<Longrightarrow> 0 < pc \<and> pc \<le> iteration st'"
proof (induction fuel arbitrary: st)
  case 0
  then show ?case by simp
next
  case (Suc fuel)
  then show ?case
    by (auto split: if_splits option.splits prod.splits)
qed

lemma driver_loop_unbounded:
  "\<not> 0 < pc \<Longrightarrow> supported env cfg \<Longrightarrow> driver_loop env cfg pc fuel st = None"
proof (induction fuel arbitrary: st)
  case 0
  then show ?case by simp
next
  case (Suc fuel)
  then show ?case
    using probe_None_iff [of env cfg "trace st"]
    by (auto split: option.splits prod.splits)
qed

lemma driver_loop_unsupported:
  "\<not> supported env cfg \<Longrightarrow> iteration st = 0 \<Longrightarrow>
   driver_loop env cfg pc (Suc fuel) st =
     Some (OsExit 1 (st\<lparr>trace := trace st @ [Stdout (Unsupported (cfg_pingType cfg))]\<rparr>))"
  using probe_None_iff [of env cfg "trace st"] by auto

lemma driver_loop_bounded:
  assumes "supported env cfg" and "0 < pc"
  shows "k = nat (pc - iteration st) \<Longrightarrow> iteration st \<le> pc \<Longrightarrow> k < fuel \<Longrightarrow>
    \<exists>st' ev. driver_loop env cfg pc fuel st = Some (Break st')
      \<and> iteration st' = pc
      \<and> trace st' = trace st @ ev
      \<and> skeleton ev = rounds (seconds (cfg_interval cfg)) (iteration st) k"
proof (induction k arbitrary: st fuel)
  case 0
  then obtain f where "fuel = Suc f" by (cases fuel) auto
  with 0 assms(2) show ?case by auto
next
  case (Suc k)
  then obtain f where f: "fuel = Suc f" "k < f" by (cases fuel) auto
  from Suc.prems have lt: "iteration st < pc" by linarith
  from assms(1) obtain r tr where p: "probe env cfg (trace st) = Some (r, tr)"
    using probe_None_iff [of env cfg "trace st"] by (cases "probe env cfg (trace st)") auto
  from probe_Some [OF p] obtain ev where
    ev: "tr = trace st @ ev" "skeleton ev = [Attempt]" by blast
  let ?st = "record_attempt cfg pc st r tr"
  have it: "iteration ?st = iteration st + 1" by (simp add: record_attempt_simps)
  from Suc.prems lt have "k = nat (pc - iteration ?st)" "iteration ?st \<le> pc"
    by (simp_all add: it)
  from Suc.IH [OF this f(2)] obtain st' ev' where
    IH: "driver_loop env cfg pc f ?st = Some (Break st')" "iteration st' = pc"
      "trace st' = trace ?st @ ev'"
      "skeleton ev' = rounds (seconds (cfg_interval cfg)) (iteration ?st) k"
    by blast
  from lt p IH(1) f have "driver_loop env cfg pc fuel st = Some (Break st')"
    by simp
  moreover have "(k = 0) = (\<not> iteration st + 1 < pc)"
    using Suc.prems lt by linarith
  then have "skeleton (ev @ [Stdout (printResult r (iteration st + 1))]
        @ (if pc < 0 \<or> iteration st + 1 < pc then [Sleep (seconds (cfg_interval cfg))] else [])
        @ ev')
      = rounds (seconds (cfg_interval cfg)) (iteration st) (Suc k)"
    using assms(2) ev(2) IH(4) by (simp add: it)
  moreover have "trace st' = trace st @ (ev @ [Stdout (printResult r (iteration st + 1))]
        @ (if pc < 0 \<or> iteration st + 1 < pc then [Sleep (seconds (cfg_interval cfg))] else [])
        @ ev')"
    using IH(3) ev(1) by (simp add: record_attempt_simps)
  ultimately show ?case using IH(2) by blast
qed

lemma skeleton_printHeader [simp]: "skeleton (map Stdout (printHeader env t p)) = []"
  by (simp add: printHeader_def)

lemma reports_printHeader [simp]: "reports (map Stdout (printHeader env t p)) = []"
  by (simp add: printHeader_def)

lemma skeleton_printSummary [simp]: "skeleton (map Stdout (printSummary rs sc tt)) = []"
  by (simp add: printSummary_def Let_def split: prod.split)

lemma reports_printSummary [simp]: "reports (map Stdout (printSummary rs sc tt)) = []"
  by (simp add: printSummary_def Let_def split: prod.split)

lemma driver_loop_no_exit:
  "supported env cfg \<Longrightarrow> driver_loop env cfg pc fuel st \<noteq> Some (OsExit c s)"
proof (induction fuel arbitrary: st)
  case 0
  then show ?case by simp
next
  case (Suc fuel)
  then show ?case
    using probe_None_iff [of env cfg "trace st"]
    by (auto split: option.splits prod.splits)
qed

lemma main_Some_cases:
  assumes "main env cfg fuel = Some (c, st)" and "cfg_target cfg \<noteq> []" and "supported env cfg"
  obtains st' where
    "driver_loop env cfg (if cfg_continuous cfg then - 1 else cfg_count cfg) fuel
       (initial_state (map Stdout (printHeader env (cfg_target cfg) (cfg_pingType cfg))))
     = Some (Break st')"
    "c = 0" "st = st'\<lparr>trace := trace st' @ summary_events st'\<rparr>"
proof -
  let ?pc = "if cfg_continuous cfg then - 1 else cfg_count cfg"
  let ?st0 = "initial_state (map Stdout (printHeader env (cfg_target cfg) (cfg_pingType cfg)))"
  show thesis
  proof (cases "driver_loop env cfg ?pc fuel ?st0")
    case None
    with assms(1,2) show ?thesis by (simp add: main_def Let_def)
  next
    case (Some e)
    show ?thesis
    proof (cases e)
      case (Break st')
      with Some assms(1,2) that show ?thesis
        by (simp add: main_def Let_def summary_events_def)
    next
      case (OsExit code s)
      with Some driver_loop_no_exit [OF assms(3)] show ?thesis by blast
    qed
  qed
qed

lemma main_bounded:
  assumes "cfg_target cfg \<noteq> []" and "supported env cfg" and "\<not> cfg_continuous cfg"
    and "1 \<le> cfg_count cfg" and "nat (cfg_count cfg) < fuel"
  shows "\<exists>st' ev. main env cfg fuel = Some (0, st'\<lparr>trace := trace st' @ summary_events st'\<rparr>)
      \<and> consistent st' \<and> iteration st' = cfg_count cfg
      \<and> trace st' = map Stdout (printHeader env (cfg_target cfg) (cfg_pingType cfg)) @ ev
      \<and> skeleton ev = bounded_schedule (cfg_count cfg) (seconds (cfg_interval cfg))"
proof -
  let ?st0 = "initial_state (map Stdout (printHeader env (cfg_target cfg) (cfg_pingType cfg)))"
  have it0: "iteration ?st0 = 0" and tr0: "trace ?st0 = map Stdout (printHeader env (cfg_target cfg) (cfg_pingType cfg))"
    by (simp_all add: initial_state_def)
  have c0: "consistent ?st0" by (rule consistent_initial) simp
  have "0 < cfg_count cfg" using assms(4) by simp
  from driver_loop_bounded [OF assms(2) this, of "nat (cfg_count cfg)" ?st0 fuel] assms(4,5)
  obtain st' ev where
    l: "driver_loop env cfg (cfg_count cfg) fuel ?st0 = Some (Break st')"
      "iteration st' = cfg_count cfg" "trace st' = trace ?st0 @ ev"
      "skeleton ev = rounds (seconds (cfg_interval cfg)) 0 (nat (cfg_count cfg))"
    by (auto simp: it0)
  from driver_loop_consistent [OF c0 l(1)] have c: "consistent st'" by simp
  from l(1) assms(1,3)
  have m: "main env cfg fuel = Some (0, st'\<lparr>trace := trace st' @ summary_events st'\<rparr>)"
    by (simp add: main_def Let_def summary_events_def)
  show ?thesis
    by (rule exI [of _ st'], rule exI [of _ ev])
      (use c m l(2-4) in \<open>simp add: tr0 bounded_schedule_def\<close>)
qed

section \<open>Properties of runs\<close>

text \<open>
  Claim C2. When the target is not empty and the lowercased protocol name is none of
  \<open>http\<close>, \<open>https\<close>, \<open>tcp\<close>, \<open>icmp\<close>, the process ends with exit status 1 in the
  first pass of the loop, whatever the count and the mode: no result has been recorded,
  and the trace holds no network call, no per-attempt line and no sleep, only the header
  and the line that names the unsupported type.
\<close>

theorem unsupported_protocol_exits_before_probing:
  assumes "cfg_target cfg \<noteq> []"
    and "ToLower env (cfg_pingType cfg) \<notin> {''http'', ''https'', ''tcp'', ''icmp''}"
  shows "\<exists>st. main env cfg (Suc fuel) = Some (1, st)
      \<and> results st = []
      \<and> skeleton (trace st) = []
      \<and> trace st = map Stdout (printHeader env (cfg_target cfg) (cfg_pingType cfg))
                    @ [Stdout (Unsupported (cfg_pingType cfg))]"
proof -
  let ?st0 = "initial_state (map Stdout (printHeader env (cfg_target cfg) (cfg_pingType cfg)))"
  from assms(2) have "\<not> supported env cfg" by (simp add: supported_def)
  moreover have "iteration ?st0 = 0" by (simp add: initial_state_def)
  ultimately have "driver_loop env cfg (if cfg_continuous cfg then - 1 else cfg_count cfg)
      (Suc fuel) ?st0
    = Some (OsExit 1 (?st0\<lparr>trace := trace ?st0 @ [Stdout (Unsupported (cfg_pingType cfg))]\<rparr>))"
    by (rule driver_loop_unsupported)
  with assms(1) show ?thesis
    by (simp add: main_def Let_def initial_state_def)
qed

theorem unsupported_protocol_exits_before_probing_witness:
  "main env_up cfg_ftp 1 =
     Some (1, initial_state [Stdout HeaderTitle, Stdout (HeaderTarget ''example.com''),
                Stdout (HeaderType ''FTP''), Stdout (HeaderTime ''2026-01-01 00:00:00''),
                Stdout (Unsupported ''ftp'')])"
proof -
  have t: "cfg_target cfg_ftp \<noteq> []" by (simp add: cfg_ftp_def)
  have u: "ToLower env_up (cfg_pingType cfg_ftp) \<notin> {''http'', ''https'', ''tcp'', ''icmp''}"
    by (simp add: cfg_ftp_def env_up_def ascii_lower_def translate_def)
  from unsupported_protocol_exits_before_probing [OF t u, of 0]
  obtain st where st: "main env_up cfg_ftp 1 = Some (1, st)" "results st = []"
    "trace st = map Stdout (printHeader env_up (cfg_target cfg_ftp) (cfg_pingType cfg_ftp))
                    @ [Stdout (Unsupported (cfg_pingType cfg_ftp))]"
    by auto
  have "main env_up cfg_ftp 1 = Some (1, initial_state (trace st))"
    using st(1,3)
    by (simp add: main_def cfg_ftp_def env_up_def Let_def probe_def initial_state_def
        printHeader_def ascii_lower_def ascii_upper_def translate_def)
  then show ?thesis
    using st(3)
    by (simp add: cfg_ftp_def env_up_def printHeader_def ascii_upper_def translate_def)
qed





lemma driver_loop_passes:
  "driver_loop env cfg pc fuel st =
     (case driver_passes env cfg pc fuel st of Running s \<Rightarrow> None | Ended e \<Rightarrow> Some e)"
  by (induction fuel arbitrary: st) (simp_all split: option.split prod.split)

lemma main_passes_main:
  "main env cfg fuel =
     (case main_passes env cfg fuel of (None, st) \<Rightarrow> None | (Some c, st) \<Rightarrow> Some (c, st))"
  by (simp add: main_def main_passes_def Let_def driver_loop_passes
      split: progress.split loop_end.split)





lemma seconds_exact:
  "0 \<le> n \<Longrightarrow> n \<le> 9223372036 \<Longrightarrow> seconds n = n * 1000000000"
  by (simp add: seconds_def Second_def int64_def)

lemma consistent_length: "consistent st \<Longrightarrow> int (length (results st)) = iteration st"
  by (simp add: consistent_def)

lemma summary_events_trace [simp]: "summary_events (st\<lparr>trace := tr\<rparr>) = summary_events st"
  by (simp add: summary_events_def)

lemma skeleton_summary_events [simp]: "skeleton (summary_events st) = []"
  by (simp add: summary_events_def)

lemma reports_summary_events [simp]: "reports (summary_events st) = []"
  by (simp add: summary_events_def)

text \<open>
  The claim that every bounded run with a count of at least 1 performs that many attempts
  fails for an unsupported protocol name: with \<open>-type ftp -c 4\<close> the process ends with
  status 1, no result and no attempt.
\<close>

theorem bounded_mode_unsupported_counterexample:
  "cfg_target cfg_ftp \<noteq> [] \<and> \<not> cfg_continuous cfg_ftp \<and> cfg_count cfg_ftp = 4
   \<and> map_option fst (main env_up cfg_ftp 5) = Some 1
   \<and> map_option (length \<circ> results \<circ> snd) (main env_up cfg_ftp 5) = Some 0
   \<and> map_option (skeleton \<circ> trace \<circ> snd) (main env_up cfg_ftp 5) = Some []"
  by (simp add: main_def cfg_ftp_def env_up_def Let_def probe_def initial_state_def
      printHeader_def ascii_lower_def translate_def eval_nat_numeral)

text \<open>
  Claim C4, amended. In bounded mode (not continuous) with a count \<open>N\<close> of at least 1, a
  target that is not empty and a supported protocol name, the run ends with status 0
  after exactly \<open>N\<close> results: the skeleton of its trace is the bounded schedule (\<open>N\<close>
  attempts, each followed by its report with the numbers 1 to \<open>N\<close> in sequence, a sleep
  of \<^verbatim>\<open>time.Duration(interval) * time.Second\<close> between consecutive attempts and none after
  the last), and the report lines are those of the recorded results in their order. For an
  interval between 0 and 9223372036 seconds that duration is the interval itself.
\<close>

theorem bounded_mode_performs_exactly_N_attempts:
  assumes "cfg_target cfg \<noteq> []" and "supported env cfg"
    and "\<not> cfg_continuous cfg" and "1 \<le> cfg_count cfg" and "nat (cfg_count cfg) < fuel"
  shows "\<exists>st. main env cfg fuel = Some (0, st)
      \<and> int (length (results st)) = cfg_count cfg
      \<and> skeleton (trace st) = bounded_schedule (cfg_count cfg) (seconds (cfg_interval cfg))
      \<and> reports (trace st) = numbered (results st)
      \<and> (0 \<le> cfg_interval cfg \<and> cfg_interval cfg \<le> 9223372036 \<longrightarrow>
           seconds (cfg_interval cfg) = cfg_interval cfg * 1000000000)"
proof -
  from main_bounded [OF assms] obtain st' ev where
    m: "main env cfg fuel = Some (0, st'\<lparr>trace := trace st' @ summary_events st'\<rparr>)"
    and c: "consistent st'" and i: "iteration st' = cfg_count cfg"
    and t: "trace st' = map Stdout (printHeader env (cfg_target cfg) (cfg_pingType cfg)) @ ev"
    and s: "skeleton ev = bounded_schedule (cfg_count cfg) (seconds (cfg_interval cfg))"
    by blast
  from c have r: "reports (trace st') = numbered (results st')"
    by (simp add: consistent_def)
  show ?thesis
    by (rule exI [of _ "st'\<lparr>trace := trace st' @ summary_events st'\<rparr>"])
      (use m consistent_length [OF c] i r s in \<open>simp add: t seconds_exact\<close>)
qed

theorem bounded_mode_performs_exactly_N_attempts_witness:
  "\<exists>st. main env_up cfg_http 3 = Some (0, st)
      \<and> length (results st) = 2
      \<and> skeleton (trace st) = [Attempt, Report 1, Pause 1000000000, Attempt, Report 2]
      \<and> reports (trace st) = numbered (results st)"
proof -
  have 1: "cfg_target cfg_http \<noteq> []" by (simp add: cfg_http_def)
  have 2: "supported env_up cfg_http"
    by (simp add: supported_def cfg_http_def env_up_def ascii_lower_def translate_def)
  have 3: "\<not> cfg_continuous cfg_http" by (simp add: cfg_http_def)
  have 4: "1 \<le> cfg_count cfg_http" by (simp add: cfg_http_def)
  have 5: "nat (cfg_count cfg_http) < 3" by (simp add: cfg_http_def)
  have 6: "bounded_schedule 2 (seconds (cfg_interval cfg_http))
      = [Attempt, Report 1, Pause 1000000000, Attempt, Report 2]"
    by (simp add: bounded_schedule_def cfg_http_def seconds_def Second_def int64_def
        eval_nat_numeral)
  have 7: "cfg_count cfg_http = 2" by (simp add: cfg_http_def)
  from bounded_mode_performs_exactly_N_attempts [OF 1 2 3 4 5]
  obtain st where "main env_up cfg_http 3 = Some (0, st)"
    "int (length (results st)) = cfg_count cfg_http"
    "skeleton (trace st) = bounded_schedule (cfg_count cfg_http) (seconds (cfg_interval cfg_http))"
    "reports (trace st) = numbered (results st)"
    by blast
  then show ?thesis by (simp add: 6 7)
qed

lemma probe_continuous: "probe env (cfg\<lparr>cfg_continuous := b\<rparr>) tr = probe env cfg tr"
  by (simp add: probe_def Let_def)

lemma record_attempt_negative:
  "pc < 0 \<Longrightarrow> record_attempt (cfg\<lparr>cfg_continuous := b\<rparr>) (- 1) st r tr = record_attempt cfg pc st r tr"
  by (simp add: record_attempt_def Let_def)

lemma driver_passes_negative:
  "pc < 0 \<Longrightarrow>
   driver_passes env (cfg\<lparr>cfg_continuous := b\<rparr>) (- 1) fuel st = driver_passes env cfg pc fuel st"
  by (induction fuel arbitrary: st)
    (simp_all add: probe_continuous record_attempt_negative split: option.split prod.split)

lemma main_passes_negative:
  assumes "\<not> cfg_continuous cfg" and "cfg_count cfg < 0"
  shows "main_passes env (cfg\<lparr>cfg_continuous := True\<rparr>) fuel = main_passes env cfg fuel"
  using assms by (simp add: main_passes_def Let_def driver_passes_negative)

lemma driver_passes_unbounded:
  "\<not> 0 < pc \<Longrightarrow> supported env cfg \<Longrightarrow> consistent st \<Longrightarrow>
   \<exists>st'. driver_passes env cfg pc k st = Running st' \<and> consistent st'
     \<and> iteration st' = iteration st + int k"
proof (induction k arbitrary: st)
  case 0
  then show ?case by simp
next
  case (Suc k)
  from Suc.prems(2) obtain r tr where p: "probe env cfg (trace st) = Some (r, tr)"
    using probe_None_iff [of env cfg "trace st"] by (cases "probe env cfg (trace st)") auto
  let ?st = "record_attempt cfg pc st r tr"
  have c: "consistent ?st"
    using consistent_record_attempt [OF Suc.prems(3) p] .
  from Suc.IH [OF Suc.prems(1,2) c] obtain st' where
    "driver_passes env cfg pc k ?st = Running st'" "consistent st'"
    "iteration st' = iteration ?st + int k" by blast
  with Suc.prems(1) p show ?case
    by (simp add: record_attempt_simps)
qed

lemma main_passes_unbounded:
  assumes "cfg_target cfg \<noteq> []" and "supported env cfg"
    and "\<not> (\<not> cfg_continuous cfg \<and> 1 \<le> cfg_count cfg)"
  shows "\<exists>st. main_passes env cfg k = (None, st) \<and> length (results st) = k"
proof -
  let ?pc = "if cfg_continuous cfg then - 1 else cfg_count cfg"
  let ?st0 = "initial_state (map Stdout (printHeader env (cfg_target cfg) (cfg_pingType cfg)))"
  have c0: "consistent ?st0" by (rule consistent_initial) simp
  from assms(3) have "\<not> 0 < ?pc" by auto
  from driver_passes_unbounded [OF this assms(2) c0, of k] obtain st' where
    s: "driver_passes env cfg ?pc k ?st0 = Running st'" "consistent st'"
    "iteration st' = iteration ?st0 + int k" by blast
  from s(2,3) have "length (results st') = k"
    by (simp add: consistent_def initial_state_def)
  with s(1) assms(1) show ?thesis
    by (simp add: main_passes_def Let_def)
qed

text \<open>
  The claim that the loop ends and the summary is printed exactly when the run is not
  continuous and the count is at least 1, and that a count of 0 behaves as unbounded mode,
  fails in two places. For an unsupported protocol name the loop is left by
  \<^verbatim>\<open>os.Exit\<close>: with \<open>-type Gopher -c 1\<close> the process ends with status 1 and prints no
  summary. And a count of 0 does not behave as unbounded mode: the test
  \<^verbatim>\<open>pingCount < 0 || iteration < pingCount\<close> is false in every pass, so the process never
  sleeps between attempts, where a continuous run sleeps after every attempt.
\<close>

theorem loop_end_unsupported_counterexample:
  "cfg_target cfg_gopher \<noteq> [] \<and> \<not> cfg_continuous cfg_gopher \<and> 1 \<le> cfg_count cfg_gopher
   \<and> main env_down cfg_gopher 2 =
       Some (1, initial_state [Stdout HeaderTitle, Stdout (HeaderTarget ''10.0.0.1:70''),
                  Stdout (HeaderType ''GOPHER''), Stdout (HeaderTime ''2026-01-01 00:00:00''),
                  Stdout (Unsupported ''Gopher'')])
   \<and> \<not> cfg_continuous cfg_forever \<and> cfg_count cfg_forever = 0
   \<and> skeleton (trace (snd (main_passes env_up cfg_forever 2)))
       = [Attempt, Report 1, Attempt, Report 2]
   \<and> cfg_continuous cfg_continuous_tcp
   \<and> skeleton (trace (snd (main_passes env_up cfg_continuous_tcp 2)))
       = [Attempt, Report 1, Pause 1000000000, Attempt, Report 2, Pause 1000000000]"
  by (simp add: main_def main_passes_def cfg_gopher_def cfg_forever_def cfg_continuous_tcp_def
      env_down_def env_up_def Let_def probe_def initial_state_def pingTCP_def newResult_def
      record_attempt_def ContainsColon_def seconds_def Second_def int64_def
      printHeader_def ascii_lower_def ascii_upper_def translate_def eval_nat_numeral)

text \<open>
  Claim C9, amended. For a target that is not empty and a supported protocol name: some
  number of passes ends the run with status 0 and the summary printed last if and only if
  the run is not continuous and the count is at least 1. Otherwise (continuous, or a count
  of 0 or less) the loop runs for ever: after any number \<open>k\<close> of passes the process is
  still running and has recorded \<open>k\<close> results. With a negative count the run behaves as
  unbounded mode: after every number of passes its state and trace are those of the same
  command line with \<open>-continuous\<close>. Whenever the run ends, it ends with status 0, the
  summary printed last and at least one result recorded.
\<close>

theorem loop_ends_iff_bounded_count:
  assumes "cfg_target cfg \<noteq> []" and "supported env cfg"
  shows "((\<exists>fuel st. main env cfg fuel = Some (0, st) \<and> (\<exists>pre. trace st = pre @ summary_events st))
            \<longleftrightarrow> \<not> cfg_continuous cfg \<and> 1 \<le> cfg_count cfg)
       \<and> (\<not> (\<not> cfg_continuous cfg \<and> 1 \<le> cfg_count cfg) \<longrightarrow>
            (\<forall>fuel. main env cfg fuel = None
               \<and> (\<exists>st. main_passes env cfg fuel = (None, st) \<and> length (results st) = fuel)))
       \<and> (\<not> cfg_continuous cfg \<and> cfg_count cfg < 0 \<longrightarrow>
            (\<forall>fuel. main_passes env cfg fuel = main_passes env (cfg\<lparr>cfg_continuous := True\<rparr>) fuel))
       \<and> (\<forall>fuel c st. main env cfg fuel = Some (c, st) \<longrightarrow>
            c = 0 \<and> results st \<noteq> [] \<and> (\<exists>pre. trace st = pre @ summary_events st))"
proof -
  let ?pc = "if cfg_continuous cfg then - 1 else cfg_count cfg"
  let ?st0 = "initial_state (map Stdout (printHeader env (cfg_target cfg) (cfg_pingType cfg)))"
  have c0: "consistent ?st0" by (rule consistent_initial) simp
  have ended: "c = 0 \<and> results st \<noteq> [] \<and> (\<exists>pre. trace st = pre @ summary_events st)
      \<and> \<not> cfg_continuous cfg \<and> 1 \<le> cfg_count cfg"
    if "main env cfg fuel = Some (c, st)" for fuel c st
  proof -
    from that assms obtain st' where
      l: "driver_loop env cfg ?pc fuel ?st0 = Some (Break st')" and "c = 0"
      and st: "st = st'\<lparr>trace := trace st' @ summary_events st'\<rparr>"
      by (rule main_Some_cases)
    from driver_loop_Break_positive [OF l] have pos: "0 < ?pc" "?pc \<le> iteration st'"
      by simp_all
    from driver_loop_consistent [OF c0 l] have "consistent st'" by simp
    with pos have "results st' \<noteq> []" by (auto simp: consistent_def)
    moreover from pos(1) have "\<not> cfg_continuous cfg \<and> 1 \<le> cfg_count cfg"
      by (auto split: if_splits)
    ultimately show ?thesis using \<open>c = 0\<close> st by simp
  qed
  have bounded: "\<exists>fuel st. main env cfg fuel = Some (0, st) \<and> (\<exists>pre. trace st = pre @ summary_events st)"
    if "\<not> cfg_continuous cfg \<and> 1 \<le> cfg_count cfg"
  proof -
    from that have *: "\<not> cfg_continuous cfg" "1 \<le> cfg_count cfg" by simp_all
    have "nat (cfg_count cfg) < Suc (nat (cfg_count cfg))" by simp
    from main_bounded [OF assms * this] obtain st' where
      "main env cfg (Suc (nat (cfg_count cfg)))
         = Some (0, st'\<lparr>trace := trace st' @ summary_events st'\<rparr>)"
      by blast
    with ended show ?thesis by blast
  qed
  have unbounded: "main env cfg fuel = None
      \<and> (\<exists>st. main_passes env cfg fuel = (None, st) \<and> length (results st) = fuel)"
    if u: "\<not> (\<not> cfg_continuous cfg \<and> 1 \<le> cfg_count cfg)" for fuel
  proof -
    from main_passes_unbounded [OF assms u, of fuel] obtain st where
      "main_passes env cfg fuel = (None, st)" "length (results st) = fuel" by blast
    then show ?thesis by (simp add: main_passes_main)
  qed
  have negative: "main_passes env cfg fuel = main_passes env (cfg\<lparr>cfg_continuous := True\<rparr>) fuel"
    if "\<not> cfg_continuous cfg \<and> cfg_count cfg < 0" for fuel
    using that main_passes_negative [of cfg env fuel] by simp
  from ended bounded unbounded negative show ?thesis by blast
qed

theorem loop_ends_iff_bounded_count_witness:
  "(\<exists>fuel st. main env_up cfg_http fuel = Some (0, st) \<and> (\<exists>pre. trace st = pre @ summary_events st))
   \<and> (\<forall>fuel. main env_up cfg_forever fuel = None)
   \<and> (\<exists>st. main_passes env_up cfg_forever 3 = (None, st) \<and> length (results st) = 3)
   \<and> (\<forall>fuel. main_passes env_up cfg_negative fuel
          = main_passes env_up (cfg_negative\<lparr>cfg_continuous := True\<rparr>) fuel)"
proof -
  have 1: "cfg_target cfg_http \<noteq> []" "cfg_target cfg_forever \<noteq> []" "cfg_target cfg_negative \<noteq> []"
    by (simp_all add: cfg_http_def cfg_forever_def cfg_negative_def)
  have 2: "supported env_up cfg_http" "supported env_up cfg_forever" "supported env_up cfg_negative"
    by (simp_all add: supported_def cfg_http_def cfg_forever_def cfg_negative_def env_up_def
        ascii_lower_def translate_def)
  have 3: "\<not> cfg_continuous cfg_http \<and> 1 \<le> cfg_count cfg_http"
    by (simp add: cfg_http_def)
  have 4: "\<not> (\<not> cfg_continuous cfg_forever \<and> 1 \<le> cfg_count cfg_forever)"
    by (simp add: cfg_forever_def)
  have 5: "\<not> cfg_continuous cfg_negative \<and> cfg_count cfg_negative < 0"
    by (simp add: cfg_negative_def)
  from loop_ends_iff_bounded_count [OF 1(1) 2(1)] loop_ends_iff_bounded_count [OF 1(2) 2(2)]
    loop_ends_iff_bounded_count [OF 1(3) 2(3)] 3 4 5
  show ?thesis by blast
qed

end
